theory Spec2Isabelle
  imports Main "HOL-Library.Word"
begin

unbundle bit_operations_syntax

section \<open>Strings\<close>

text \<open>
  A JavaScript string is modelled as a \<open>string\<close>, one \<open>char\<close> per code unit; the
  code units are those below 256. The helpers below are the string methods and the
  regular expressions that \<open>rss.service.ts\<close> uses.
\<close>

definition isAlnum :: "char \<Rightarrow> bool" where
  \<comment> \<open>the character class \<open>[a-zA-Z0-9]\<close>\<close>
  "isAlnum c =
     (let n = (of_char c :: nat)
      in (97 \<le> n \<and> n \<le> 122) \<or> (65 \<le> n \<and> n \<le> 90) \<or> (48 \<le> n \<and> n \<le> 57))"

definition isWord :: "char \<Rightarrow> bool" where
  \<comment> \<open>the character class \<open>\w\<close>\<close>
  "isWord c = (isAlnum c \<or> c = CHR ''_'')"

definition isSpace :: "char \<Rightarrow> bool" where
  \<comment> \<open>what \<open>String.prototype.trim\<close> removes: white space and line terminators\<close>
  "isSpace c = (of_char c \<in> {9, 10, 11, 12, 13, 32, 160 :: nat})"

definition toLowerChar :: "char \<Rightarrow> char" where
  "toLowerChar c =
     (let n = (of_char c :: nat)
      in if (65 \<le> n \<and> n \<le> 90) \<or> (192 \<le> n \<and> n \<le> 222 \<and> n \<noteq> 215)
         then char_of (n + 32) else c)"

definition toLowerCase :: "string \<Rightarrow> string" where
  "toLowerCase s = map toLowerChar s"

definition trim :: "string \<Rightarrow> string" where
  "trim s = rev (dropWhile isSpace (rev (dropWhile isSpace s)))"

fun startsWith :: "string \<Rightarrow> string \<Rightarrow> bool" where
  "startsWith s [] = True"
| "startsWith [] (p # ps) = False"
| "startsWith (c # cs) (p # ps) = (c = p \<and> startsWith cs ps)"

fun includesStr :: "string \<Rightarrow> string \<Rightarrow> bool" where
  "includesStr [] p = (p = [])"
| "includesStr (c # cs) p = (startsWith (c # cs) p \<or> includesStr cs p)"

definition orElse :: "string option \<Rightarrow> string \<Rightarrow> string" where
  \<comment> \<open>\<open>field || fallback\<close>\<close>
  "orElse f d = (case f of None \<Rightarrow> d | Some s \<Rightarrow> if s = [] then d else s)"

fun firstMatch :: "(string \<Rightarrow> 'a option) \<Rightarrow> string \<Rightarrow> 'a option" where
  \<comment> \<open>\<open>String.prototype.match\<close> without the g flag: the match at the leftmost position\<close>
  "firstMatch m [] = m []"
| "firstMatch m (c # cs) = (case m (c # cs) of Some r \<Rightarrow> Some r | None \<Rightarrow> firstMatch m cs)"

definition commentsAt :: "string \<Rightarrow> string option" where
  \<comment> \<open>\<open>\/comments\/([a-zA-Z0-9]+)\<close> anchored at the start of \<open>s\<close>: the captured group\<close>
  "commentsAt s =
     (if startsWith s ''/comments/''
      then (let g = takeWhile isAlnum (drop 10 s) in if g = [] then None else Some g)
      else None)"

definition ownerCommentsAt :: "string \<Rightarrow> string \<Rightarrow> string option" where
  \<comment> \<open>\<open>pre \w+ \/comments\/([a-zA-Z0-9]+)\<close> anchored at the start of \<open>s\<close>. A run of
     \<open>\w\<close> that ends before the longest one is followed by a word character, never by
     the \<open>/\<close> the pattern wants next, so only the longest run can match.\<close>
  "ownerCommentsAt pre s =
     (if startsWith s pre
      then (let r = drop (length pre) s
            in if takeWhile isWord r = [] then None else commentsAt (dropWhile isWord r))
      else None)"

definition alnumTailAt :: "string \<Rightarrow> string option" where
  \<comment> \<open>\<open>([a-zA-Z0-9]+)$\<close> anchored at the start of \<open>s\<close>\<close>
  "alnumTailAt s = (if s \<noteq> [] \<and> list_all isAlnum s then Some s else None)"

section \<open>Identity assignment\<close>

record RawItem =
  raw_guid :: "string option"
  raw_link :: "string option"
  raw_title :: "string option"
  raw_pubDate :: "string option"

definition hashStep :: "32 word \<Rightarrow> char \<Rightarrow> 32 word" where
  \<comment> \<open>\<open>hash = ((hash << 5) - hash) + char; hash = hash & hash\<close>: the sum is exact in a
     double and \<open>&\<close> reduces it to a 32-bit integer\<close>
  "hashStep hash c = (push_bit 5 hash - hash) + of_char c"

function toString36 :: "nat \<Rightarrow> string" where
  \<comment> \<open>\<open>Number.prototype.toString(36)\<close> on a non-negative integer\<close>
  "toString36 n =
     (let d = n mod 36;
          c = (if d < 10 then char_of (48 + d) else char_of (87 + d))
      in if n < 36 then [c] else toString36 (n div 36) @ [c])"
  by pat_completeness auto
termination
  by (relation "measure (\<lambda>n. n)") auto

declare toString36.simps [simp del]

definition hashString :: "string \<Rightarrow> string" where
  "hashString str = toString36 (nat \<bar>sint (foldl hashStep 0 str)\<bar>)"

definition redditPatterns :: "(string \<Rightarrow> string option) list" where
  "redditPatterns =
     [commentsAt,
      ownerCommentsAt ''/r/'',
      ownerCommentsAt ''/user/'',
      ownerCommentsAt ''/u/'']"

fun firstPattern :: "(string \<Rightarrow> string option) list \<Rightarrow> string \<Rightarrow> string option" where
  \<comment> \<open>\<open>for (const pattern of patterns)\<close>: the first pattern that matches the link\<close>
  "firstPattern [] l = None"
| "firstPattern (p # ps) l =
     (case firstMatch p l of Some g \<Rightarrow> Some g | None \<Rightarrow> firstPattern ps l)"

definition slug :: "string \<Rightarrow> string" where
  \<comment> \<open>\<open>.replace(/[^a-zA-Z0-9-]/g, '-').toLowerCase()\<close>\<close>
  "slug s = toLowerCase (map (\<lambda>c. if isAlnum c \<or> c = CHR ''-'' then c else CHR ''-'') s)"

definition generateItemId :: "string \<Rightarrow> RawItem \<Rightarrow> string" where
  \<comment> \<open>\<open>now\<close> is what \<open>new Date().toISOString()\<close> gives at the time of the call; a
     field that is \<open>undefined\<close> or \<open>''\<close> is falsy, and read as \<open>''\<close> here\<close>
  "generateItemId now item =
     (let link = orElse (raw_link item) [];
          guid = orElse (raw_guid item) []
      in if link \<noteq> [] \<and> includesStr link ''reddit.com''
         then (case firstPattern redditPatterns link of
                 Some g \<Rightarrow> ''reddit_'' @ g
               | None \<Rightarrow>
                   if guid \<noteq> []
                   then (case firstMatch alnumTailAt guid of
                           Some g \<Rightarrow> ''reddit_guid_'' @ g
                         | None \<Rightarrow> ''reddit_guid_'' @ guid)
                   else ''reddit_link_'' @ hashString link)
         else if guid \<noteq> [] then guid
         else if link \<noteq> [] then link
         else slug (orElse (raw_title item) ''untitled'' @ ''-'' @ orElse (raw_pubDate item) now))"

section \<open>Feeds and the detection of new items\<close>

datatype jsdate = InvalidDate | Date int

text \<open>
  A \<open>Date\<close> holds a time in milliseconds since the epoch, or is invalid (its time value
  is NaN). The relational operators compare the time values, and every comparison with
  NaN is false.
\<close>

fun date_ge :: "jsdate \<Rightarrow> jsdate \<Rightarrow> bool" where
  "date_ge (Date a) (Date b) = (a \<ge> b)"
| "date_ge _ _ = False"

fun date_le :: "jsdate \<Rightarrow> jsdate \<Rightarrow> bool" where
  "date_le (Date a) (Date b) = (a \<le> b)"
| "date_le _ _ = False"

fun date_gt :: "jsdate \<Rightarrow> jsdate \<Rightarrow> bool" where
  "date_gt (Date a) (Date b) = (a > b)"
| "date_gt _ _ = False"

text \<open>
  Modelled from the spec: the enumeration \<open>FeedType\<close> of \<open>feed-type-detector.ts\<close>, which
  classifies a body into RSS 2.0, Atom 1.0, JSON Feed 1.1 or unknown.
\<close>

datatype FeedType = RSS_2_0 | ATOM_1_0 | JSON_FEED_1_1 | UNKNOWN

record RSSItem =
  item_id :: string
  title :: string
  link :: string
  description :: "string option"
  pubDate :: "jsdate option"
  author :: "string option"
  categories :: "string list option"
  guid :: "string option"

record RSSFeed =
  feed_title :: "string option"
  feed_description :: "string option"
  feed_link :: "string option"
  feed_items :: "RSSItem list"
  feedType :: "FeedType option"
  detectedFeatures :: "string list option"

record ParseResult =
  success :: bool
  feed :: "RSSFeed option"
  error :: "string option"

record Clock =
  BOT_STARTUP_TIME :: "jsdate option"
  now :: int

text \<open>
  \<open>BOT_STARTUP_TIME\<close> is \<open>new Date(process.env.BOT_STARTUP_TIME)\<close> when the variable
  is set to a non-empty string, and \<open>now\<close> is the time that \<open>new Date()\<close> and
  \<open>Date.now()\<close> read during the call.
\<close>

record NewItems =
  items :: "RSSItem list"
  totalItemsCount :: nat

definition botStartupTime :: "Clock \<Rightarrow> jsdate" where
  \<comment> \<open>\<open>process.env.BOT_STARTUP_TIME ? new Date(process.env.BOT_STARTUP_TIME) : new Date()\<close>\<close>
  "botStartupTime env = (case BOT_STARTUP_TIME env of Some d \<Rightarrow> d | None \<Rightarrow> Date (now env))"

fun findIndex :: "('a \<Rightarrow> bool) \<Rightarrow> 'a list \<Rightarrow> nat option" where
  \<comment> \<open>\<open>Array.prototype.findIndex\<close>, with \<open>None\<close> for -1\<close>
  "findIndex P [] = None"
| "findIndex P (x # xs) =
     (if P x then Some 0 else (case findIndex P xs of None \<Rightarrow> None | Some i \<Rightarrow> Some (Suc i)))"

datatype js_error = RangeError string

fun toISOString_error :: "jsdate \<Rightarrow> js_error option" where
  \<comment> \<open>what \<open>Date.prototype.toISOString\<close> throws on this date; the string that it returns
     otherwise goes into a log line only\<close>
  "toISOString_error InvalidDate = Some (RangeError ''Invalid time value'')"
| "toISOString_error (Date t) = None"

definition getNewItems ::
  "ParseResult \<Rightarrow> Clock \<Rightarrow> string \<Rightarrow> string option \<Rightarrow> bool \<Rightarrow> js_error + NewItems" where
  \<comment> \<open>\<open>result\<close> is what \<open>await this.fetchFeed(url)\<close> returned; \<open>Inl\<close> is an error that
     leaves the function: the log lines of a first observation call
     \<open>botStartupTime.toISOString()\<close>, after the filter when catch-up is forced and before
     it otherwise\<close>
  "getNewItems result env url lastItemId forceProcessAll =
     (case (if success result then feed result else None) of
        None \<Rightarrow> Inr \<lparr>items = [], totalItemsCount = 0\<rparr>
      | Some f \<Rightarrow>
          (let its = feed_items f;
               total = length its;
               lastId = orElse lastItemId []
           in if lastId = [] then
                (if forceProcessAll then
                   (let missedItems = filter (\<lambda>item. case pubDate item of None \<Rightarrow> False
                          | Some d \<Rightarrow> date_ge d (botStartupTime env) \<and> date_le d (Date (now env)))
                          its
                    in case toISOString_error (botStartupTime env) of
                         Some e \<Rightarrow> Inl e
                       | None \<Rightarrow> Inr \<lparr>items = missedItems, totalItemsCount = total\<rparr>)
                 else
                   (case toISOString_error (botStartupTime env) of
                      Some e \<Rightarrow> Inl e
                    | None \<Rightarrow>
                        Inr \<lparr>items = filter (\<lambda>item. case pubDate item of None \<Rightarrow> False
                               | Some d \<Rightarrow> date_ge d (botStartupTime env)) its,
                             totalItemsCount = total\<rparr>))
              else
                (case findIndex (\<lambda>item. item_id item = lastId) its of
                   None \<Rightarrow>
                     (if includesStr url ''reddit.com'' then
                        (let oneHourAgo = Date (now env - 60 * 60 * 1000);
                             recentItems = filter (\<lambda>item. case pubDate item of None \<Rightarrow> False
                               | Some d \<Rightarrow> date_gt d oneHourAgo) its
                         in if length recentItems > 0
                            then Inr \<lparr>items = recentItems, totalItemsCount = total\<rparr>
                            else Inr \<lparr>items = take (min 3 (length its)) its,
                                      totalItemsCount = total\<rparr>)
                      else Inr \<lparr>items = take (min 5 (length its)) its, totalItemsCount = total\<rparr>)
                 | Some lastItemIndex \<Rightarrow>
                     (let newItems = take lastItemIndex its
                      in case its of
                           lastKnownItem # _ \<Rightarrow>
                             if lastItemIndex = 0 then
                               (let potentiallyNewItems = filter (\<lambda>item.
                                      case (pubDate item, pubDate lastKnownItem) of
                                        (Some d, Some t) \<Rightarrow> date_gt d t
                                      | _ \<Rightarrow> False) its
                                in if length potentiallyNewItems > 0
                                   then Inr \<lparr>items = potentiallyNewItems, totalItemsCount = total\<rparr>
                                   else Inr \<lparr>items = newItems, totalItemsCount = total\<rparr>)
                             else Inr \<lparr>items = newItems, totalItemsCount = total\<rparr>
                         | [] \<Rightarrow> Inr \<lparr>items = newItems, totalItemsCount = total\<rparr>))))"

section \<open>The resilient fetch\<close>

text \<open>
  The collaborators of the fetch are outside this file of the repository: the cache, the
  circuit breaker, the rate limiter, the network and the parsers. What they answer is an
  input of the model, one answer for each call the code makes, and what the code asks of
  them is recorded as a list of events. \<open>Inl msg\<close> stands for an error thrown with the
  message \<open>msg\<close>.
\<close>

record CacheEntry =
  cached_feed :: RSSFeed
  etag :: "string option"
  lastModified :: "string option"

record Response =
  status :: nat
  statusText :: string
  header_content_type :: "string option"
  header_etag :: "string option"
  header_last_modified :: "string option"
  response_text :: "string + string"

record AttemptEnv =
  canExecute :: bool
  currentCachedEntry :: "CacheEntry option"
  fetched :: "string + Response"

record UrlEnv =
  cachedEntry :: "CacheEntry option"
  attempt_env :: "nat \<Rightarrow> AttemptEnv"

text \<open>
  \<open>cachedEntry\<close> is what \<open>cacheService.getEntry(url)\<close> answers when
  \<open>fetchFeedFromUrl\<close> starts, and \<open>attempt_env n\<close> is what the collaborators answer
  during attempt \<open>n\<close>: the circuit breaker's gate, the cache entry read for the
  conditional headers, and the outcome of \<open>fetch\<close>.
\<close>

record Platform =
  extractDomain :: "string \<Rightarrow> string"
  getAlternativeUrls :: "string \<Rightarrow> string list"
  parseFeed :: "string \<Rightarrow> string \<Rightarrow> string \<Rightarrow> string + RSSFeed"

text \<open>
  \<open>extractDomain\<close> and \<open>getAlternativeUrls\<close> compute with the platform's \<open>URL\<close> class
  and are parameters here. \<open>parseFeed responseText contentType url\<close> is the detection of
  the feed type followed by the parser of that type and \<open>processFeed\<close>: the processed
  feed with its type and features set, or the error thrown on the way.
\<close>

datatype event =
    WaitIfNeeded string
  | Fetch string "string option" "string option"
  | RecordFailure string
  | RecordSuccess string
  | SetWithHeaders string RSSFeed "string option" "string option"
  | Sleep nat

definition maxRetries :: nat where
  "maxRetries = 3"

definition baseDelay :: nat where
  "baseDelay = 1000"

definition maxDelay :: nat where
  "maxDelay = 30000"

function showNat :: "nat \<Rightarrow> string" where
  \<comment> \<open>a non-negative integer inside a template literal\<close>
  "showNat n =
     (if n < 10 then [char_of (48 + n)] else showNat (n div 10) @ [char_of (48 + n mod 10)])"
  by pat_completeness auto
termination
  by (relation "measure (\<lambda>n. n)") auto

declare showNat.simps [simp del]

definition response_ok :: "Response \<Rightarrow> bool" where
  \<comment> \<open>\<open>response.ok\<close> of the Fetch API: the status is in the range 200 to 299\<close>
  "response_ok r = (200 \<le> status r \<and> status r \<le> 299)"

definition nonEmpty :: "string option \<Rightarrow> string option" where
  \<comment> \<open>\<open>if (etag) responseHeaders.etag = etag\<close>: a missing or empty header sets nothing\<close>
  "nonEmpty h = (if orElse h [] = [] then None else h)"

definition isNonRetryableError :: "string \<Rightarrow> bool" where
  "isNonRetryableError msg =
     (let message = toLowerCase msg
      in list_ex (\<lambda>pattern. includesStr message pattern)
           [''not found'', ''unauthorized'', ''forbidden'', ''invalid url'', ''invalid feed'',
            ''parse error''])"

definition isRateLimitError :: "string \<Rightarrow> bool" where
  "isRateLimitError msg =
     (let message = toLowerCase msg
      in includesStr message ''status code 429'' \<or> includesStr message ''too many requests''
         \<or> includesStr message ''rate limit'')"

definition getRateLimitDelay :: "Platform \<Rightarrow> string \<Rightarrow> nat \<Rightarrow> nat" where
  \<comment> \<open>called with \<open>attempt\<close> from 1 on\<close>
  "getRateLimitDelay P url attempt =
     (let domain = extractDomain P url
      in if includesStr domain ''reddit.com''
         then [5000, 15000, 30000] ! min (attempt - 1) 2
         else min (5000 * 2 ^ (attempt - 1)) 60000)"

definition backoffDelay :: "nat \<Rightarrow> nat" where
  \<comment> \<open>\<open>Math.min(this.baseDelay * 2 ** (attempt - 1), this.maxDelay)\<close>, for \<open>attempt\<close>
     from 1 on\<close>
  "backoffDelay attempt = min (baseDelay * 2 ^ (attempt - 1)) maxDelay"

definition isProblematicUrl :: "string \<Rightarrow> bool" where
  "isProblematicUrl url =
     list_ex (\<lambda>pattern. includesStr url pattern) [''reddit.com.br'', ''reddit.com.br/r/'']"

definition htmlPageMessage :: string where
  "htmlPageMessage = ''Received HTML page instead of XML feed. Possible redirect or error page.''"

definition succeeded :: "RSSFeed \<Rightarrow> ParseResult" where
  "succeeded f = \<lparr>success = True, feed = Some f, error = None\<rparr>"

definition failed :: "string \<Rightarrow> ParseResult" where
  "failed msg = \<lparr>success = False, feed = None, error = Some msg\<rparr>"

definition requestEvents :: "AttemptEnv \<Rightarrow> string \<Rightarrow> event list" where
  \<comment> \<open>the wait on the rate limiter and the request, with \<open>If-None-Match\<close> and
     \<open>If-Modified-Since\<close> taken from the cache entry read for this attempt\<close>
  "requestEvents a url =
     [WaitIfNeeded url,
      Fetch url
        (case currentCachedEntry a of None \<Rightarrow> None | Some e \<Rightarrow> nonEmpty (etag e))
        (case currentCachedEntry a of None \<Rightarrow> None | Some e \<Rightarrow> nonEmpty (lastModified e))]"

definition attemptFetch ::
  "Platform \<Rightarrow> AttemptEnv \<Rightarrow> string \<Rightarrow> (string + ParseResult) \<times> event list" where
  \<comment> \<open>the body of the \<open>try\<close> block: \<open>Inr\<close> is its \<open>return\<close>, \<open>Inl\<close> what it throws\<close>
  "attemptFetch P a url =
     (let domain = extractDomain P url;
          request = requestEvents a url
      in if \<not> canExecute a then (Inl (''Circuit breaker is open for '' @ domain), [])
         else
           (case fetched a of
              Inl msg \<Rightarrow> (Inl msg, request)
            | Inr response \<Rightarrow>
                (case (if status response = 304 then currentCachedEntry a else None) of
                   Some e \<Rightarrow> (Inr (succeeded (cached_feed e)), request)
                 | None \<Rightarrow>
                     if \<not> response_ok response
                     then (Inl (''HTTP '' @ showNat (status response) @ '': ''
                                  @ statusText response),
                           request @ [RecordFailure domain])
                     else
                       (case response_text response of
                          Inl msg \<Rightarrow> (Inl msg, request @ [RecordSuccess domain])
                        | Inr responseText \<Rightarrow>
                            if startsWith (trim responseText) ''<!DOCTYPE html''
                               \<or> startsWith (trim responseText) ''<html''
                            then (Inl htmlPageMessage, request @ [RecordSuccess domain])
                            else
                              (case parseFeed P responseText
                                      (orElse (header_content_type response) []) url of
                                 Inl msg \<Rightarrow> (Inl msg, request @ [RecordSuccess domain])
                               | Inr processedFeed \<Rightarrow>
                                   (Inr (succeeded processedFeed),
                                    request @
                                    [RecordSuccess domain,
                                     SetWithHeaders url processedFeed
                                       (nonEmpty (header_etag response))
                                       (nonEmpty (header_last_modified response))]))))))"

datatype LoopResult = Returned ParseResult | Ended "string option"

fun andThen :: "event list \<Rightarrow> 'a \<times> event list \<Rightarrow> 'a \<times> event list" where
  "andThen evs (r, evs') = (r, evs @ evs')"

function retryLoop ::
  "Platform \<Rightarrow> UrlEnv \<Rightarrow> string \<Rightarrow> nat \<Rightarrow> string option \<Rightarrow> LoopResult \<times> event list" where
  \<comment> \<open>\<open>for (let attempt = 1; attempt <= this.maxRetries; attempt++)\<close> from \<open>attempt\<close> on;
     \<open>Returned\<close> is a \<open>return\<close> inside the loop, \<open>Ended\<close> the end of the loop (by the
     bound or by \<open>break\<close>) with the value of \<open>lastError\<close>\<close>
  "retryLoop P env url attempt lastError =
     (if attempt \<le> maxRetries then
        (case attemptFetch P (attempt_env env attempt) url of
           (Inr r, evs) \<Rightarrow> (Returned r, evs)
         | (Inl msg, evs) \<Rightarrow>
             if isRateLimitError msg then
               andThen
                 (evs @ (if attempt < maxRetries then [Sleep (getRateLimitDelay P url attempt)]
                         else []))
                 (retryLoop P env url (attempt + 1) (Some msg))
             else if isNonRetryableError msg then
               (Ended (Some msg), evs @ [RecordFailure (extractDomain P url)])
             else
               andThen
                 (evs @ (if attempt < maxRetries then [Sleep (backoffDelay attempt)] else []))
                 (retryLoop P env url (attempt + 1) (Some msg)))
      else (Ended lastError, []))"
  by pat_completeness auto
termination
  by (relation "measure (\<lambda>(P, env, url, attempt, lastError). maxRetries + 1 - attempt)") auto

declare retryLoop.simps [simp del]

definition fetchFeedFromUrl ::
  "Platform \<Rightarrow> UrlEnv \<Rightarrow> string \<Rightarrow> (string + ParseResult) \<times> event list" where
  \<comment> \<open>\<open>Inl\<close> is an error that leaves the function: \<open>lastError!\<close> read while it is \<open>null\<close>\<close>
  "fetchFeedFromUrl P env url =
     (case cachedEntry env of
        Some e \<Rightarrow> (Inr (succeeded (cached_feed e)), [])
      | None \<Rightarrow>
          if isProblematicUrl url
          then (Inr (failed ''URL is known to be problematic and has been skipped''), [])
          else
            (case retryLoop P env url 1 None of
               (Returned r, evs) \<Rightarrow> (Inr r, evs)
             | (Ended None, evs) \<Rightarrow>
                 (Inl ''Cannot read properties of null (reading 'message')'', evs)
             | (Ended (Some msg), evs) \<Rightarrow>
                 (let errorMessage = (if msg = [] then ''Unknown error occurred'' else msg)
                  in (Inr (failed errorMessage),
                      evs @ (if \<not> isNonRetryableError msg
                             then [RecordFailure (extractDomain P url)] else [])))))"

fun tryUrls ::
  "Platform \<Rightarrow> (nat \<Rightarrow> UrlEnv) \<Rightarrow> nat \<Rightarrow> string list
     \<Rightarrow> (string + ParseResult) option \<times> event list" where
  \<comment> \<open>\<open>for (const tryUrl of urlsToTry)\<close>: \<open>Some\<close> is what leaves the loop (a successful
     result returned, or an error), \<open>None\<close> the end of the list; \<open>i\<close> counts the calls of
     \<open>fetchFeedFromUrl\<close> made so far\<close>
  "tryUrls P envs i [] = (None, [])"
| "tryUrls P envs i (tryUrl # rest) =
     (case fetchFeedFromUrl P (envs i) tryUrl of
        (Inl e, evs) \<Rightarrow> (Some (Inl e), evs)
      | (Inr result, evs) \<Rightarrow>
          if success result then (Some (Inr result), evs)
          else andThen evs (tryUrls P envs (i + 1) rest))"

definition fetchFeed ::
  "Platform \<Rightarrow> (nat \<Rightarrow> UrlEnv) \<Rightarrow> string \<Rightarrow> (string + ParseResult) \<times> event list" where
  \<comment> \<open>\<open>envs i\<close> is what the collaborators answer during the call number \<open>i\<close> of
     \<open>fetchFeedFromUrl\<close>, counted from 0\<close>
  "fetchFeed P envs url =
     (let urlsToTry = url # getAlternativeUrls P url
      in case tryUrls P envs 0 urlsToTry of
           (Some r, evs) \<Rightarrow> (r, evs)
         | (None, evs) \<Rightarrow> andThen evs (fetchFeedFromUrl P (envs (length urlsToTry)) url))"

section \<open>Observations on the events and example data\<close>

definition recordedFailures :: "string \<Rightarrow> event list \<Rightarrow> nat" where
  \<comment> \<open>how many times \<open>circuitBreakerService.recordFailure(domain)\<close> was called\<close>
  "recordedFailures domain evs = length (filter (\<lambda>e. e = RecordFailure domain) evs)"

definition requestsMade :: "string \<Rightarrow> event list \<Rightarrow> nat" where
  \<comment> \<open>how many times \<open>fetch(url, ...)\<close> was called\<close>
  "requestsMade url evs =
     length (filter (\<lambda>e. case e of Fetch u _ _ \<Rightarrow> u = url | _ \<Rightarrow> False) evs)"

definition mkItem :: "string \<Rightarrow> jsdate option \<Rightarrow> RSSItem" where
  "mkItem i d =
     \<lparr>item_id = i, title = i, link = [], description = None, pubDate = d, author = None,
      categories = None, guid = None\<rparr>"

definition fetchedItems :: "RSSItem list \<Rightarrow> ParseResult" where
  "fetchedItems its =
     succeeded \<lparr>feed_title = None, feed_description = None, feed_link = None,
       feed_items = its, feedType = None, detectedFeatures = None\<rparr>"

definition examplePlatform :: Platform where
  "examplePlatform =
     \<lparr>extractDomain = (\<lambda>url. ''example.com''),
      getAlternativeUrls = (\<lambda>url. []),
      parseFeed = (\<lambda>responseText contentType url. Inl ''Feed not recognized as RSS 1 or 2.'')\<rparr>"

definition exampleUrl :: string where
  "exampleUrl = ''https://example.com/feed.xml''"

definition responding :: "nat \<Rightarrow> string \<Rightarrow> string \<Rightarrow> AttemptEnv" where
  \<comment> \<open>an attempt with the circuit closed and no cache entry, answered by the server\<close>
  "responding code reason body =
     \<lparr>canExecute = True, currentCachedEntry = None,
      fetched = Inr \<lparr>status = code, statusText = reason, header_content_type = None,
        header_etag = None, header_last_modified = None, response_text = Inr body\<rparr>\<rparr>"

definition rejecting :: "string \<Rightarrow> AttemptEnv" where
  \<comment> \<open>an attempt with the circuit closed and no cache entry, where \<open>fetch\<close> rejects\<close>
  "rejecting msg = \<lparr>canExecute = True, currentCachedEntry = None, fetched = Inl msg\<rparr>"

definition always :: "AttemptEnv \<Rightarrow> UrlEnv" where
  \<comment> \<open>no cache entry at the start, and the same answer at every attempt\<close>
  "always a = \<lparr>cachedEntry = None, attempt_env = (\<lambda>n. a)\<rparr>"

definition receivesHtml :: "AttemptEnv \<Rightarrow> bool" where
  \<comment> \<open>the circuit is closed and the server answers with a successful status and a body
     that is an HTML page\<close>
  "receivesHtml a =
     (canExecute a \<and>
      (case fetched a of
         Inl msg \<Rightarrow> False
       | Inr response \<Rightarrow>
           response_ok response \<and>
           (case response_text response of
              Inl msg \<Rightarrow> False
            | Inr responseText \<Rightarrow>
                startsWith (trim responseText) ''<!DOCTYPE html''
                \<or> startsWith (trim responseText) ''<html'')))"

definition sixRecentItems :: "RSSItem list" where
  "sixRecentItems =
     [mkItem ''p1'' (Some (Date 7000000)), mkItem ''p2'' (Some (Date 6900000)),
      mkItem ''p3'' (Some (Date 6800000)), mkItem ''p4'' (Some (Date 6700000)),
      mkItem ''p5'' (Some (Date 6600000)), mkItem ''p6'' (Some (Date 6500000))]"

definition retriedAttempt :: "Platform \<Rightarrow> AttemptEnv \<Rightarrow> string \<Rightarrow> bool" where
  \<comment> \<open>the attempt throws an error after which the loop goes on: a rate-limit error, or
     one that is not among those that are not retried\<close>
  "retriedAttempt P a url =
     (case fst (attemptFetch P a url) of
        Inl msg \<Rightarrow> isRateLimitError msg \<or> \<not> isNonRetryableError msg
      | Inr r \<Rightarrow> False)"

definition everyCall :: "UrlEnv \<Rightarrow> nat \<Rightarrow> UrlEnv" where
  \<comment> \<open>the same answers at every call of \<open>fetchFeedFromUrl\<close>\<close>
  "everyCall e i = e"

section \<open>Lemmas on the helpers\<close>

lemma take_min_length: "take (min n (length xs)) xs = take n xs"
  by (simp add: min_def)

lemma findIndex_Some_iff:
  "findIndex P xs = Some k \<longleftrightarrow> k < length xs \<and> P (xs ! k) \<and> (\<forall>j<k. \<not> P (xs ! j))"
proof (induction xs arbitrary: k)
  case Nil
  then show ?case by simp
next
  case (Cons x xs)
  show ?case
  proof (cases "P x")
    case True
    then show ?thesis by (cases k) auto
  next
    case False
    show ?thesis
    proof (cases k)
      case 0
      with False show ?thesis by (simp split: option.splits)
    next
      case (Suc m)
      have "(\<forall>j<Suc m. \<not> P ((x # xs) ! j)) \<longleftrightarrow> (\<forall>j<m. \<not> P (xs ! j))"
        using False by (auto simp: less_Suc_eq_0_disj)
      with False Suc Cons.IH [of m] show ?thesis by (auto split: option.splits)
    qed
  qed
qed

lemma findIndex_None_iff: "findIndex P xs = None \<longleftrightarrow> (\<forall>x \<in> set xs. \<not> P x)"
  by (induction xs) (auto split: option.splits)

lemma andThen_fst: "fst (andThen evs x) = fst x"
  by (cases x) simp

lemma showNat_304: "showNat 304 = ''304''"
  by code_simp

lemma html_message_is_generic:
  "\<not> isRateLimitError htmlPageMessage" "\<not> isNonRetryableError htmlPageMessage"
  by code_simp+

lemma classify_fetch_failed:
  "\<not> isRateLimitError ''fetch failed''" "\<not> isNonRetryableError ''fetch failed''"
  by code_simp+

lemma classify_not_modified:
  "\<not> isRateLimitError ''HTTP 304: Not Modified''"
  "\<not> isNonRetryableError ''HTTP 304: Not Modified''"
  by code_simp+

lemma examplePlatform_alternatives: "getAlternativeUrls examplePlatform url = []"
  by (simp add: examplePlatform_def)

lemma exampleUrl_not_problematic: "\<not> isProblematicUrl exampleUrl"
  by code_simp

lemma exampleUrl_not_reddit: "\<not> includesStr exampleUrl ''reddit.com''"
  by code_simp

section \<open>The identity of an entry\<close>

lemma generateItemId_fixed_by_fields:
  assumes "orElse (raw_guid item) [] \<noteq> [] \<or> orElse (raw_link item) [] \<noteq> []
           \<or> orElse (raw_pubDate item) [] \<noteq> []"
  shows "generateItemId now1 item = generateItemId now2 item"
  using assms by (auto simp: generateItemId_def Let_def orElse_def split: option.splits if_splits)

lemma generateItemId_nonempty: "generateItemId nowIso item \<noteq> []"
  by (auto simp: generateItemId_def Let_def slug_def toLowerCase_def split: option.splits)

text \<open>
  Claim C1 (identity determinism): two calls of \<open>generateItemId\<close> on entries with the same
  guid, link, title and publish time return the same identifier whenever they are made,
  also for an entry with no guid, no link and no publish time.

  The identifier is fixed by the fields as soon as the entry has a guid, a link or a
  publish time (\<open>generateItemId_fixed_by_fields\<close>). For an entry with none of the three
  the code builds the slug from the title and \<open>new Date().toISOString()\<close>, so one and the
  same entry gets two identifiers at two times of the clock: the theorem evaluates the
  code for the entry titled ``Hello World'' at 00:00:00 and at 00:05:00.
\<close>

theorem generateItemId_depends_on_clock:
  "generateItemId ''2024-01-01T00:00:00.000Z''
      \<lparr>raw_guid = None, raw_link = None, raw_title = Some ''Hello World'', raw_pubDate = None\<rparr>
     = ''hello-world-2024-01-01t00-00-00-000z''
   \<and> generateItemId ''2024-01-01T00:05:00.000Z''
      \<lparr>raw_guid = None, raw_link = None, raw_title = Some ''Hello World'', raw_pubDate = None\<rparr>
     = ''hello-world-2024-01-01t00-05-00-000z''"
  by code_simp

section \<open>The new items of a feed\<close>

lemma getNewItems_totalItemsCount:
  assumes "success result" and "feed result = Some f"
  shows "case getNewItems result env url lastItemId forceProcessAll of
           Inl e \<Rightarrow> True
         | Inr r \<Rightarrow> totalItemsCount r = length (feed_items f)"
  using assms
  by (simp add: getNewItems_def Let_def split: option.splits list.splits)

lemma botStartupTime_reference:
  assumes "BOT_STARTUP_TIME env = Some (Date reference)
           \<or> (BOT_STARTUP_TIME env = None \<and> now env = reference)"
  shows "botStartupTime env = Date reference"
  using assms by (auto simp: botStartupTime_def)

lemma at_or_after_reference:
  "(case pubDate item of None \<Rightarrow> False | Some d \<Rightarrow> date_ge d (Date reference))
     = (\<exists>t. pubDate item = Some (Date t) \<and> reference \<le> t)"
proof (cases "pubDate item")
  case None
  then show ?thesis by simp
next
  case (Some d)
  then show ?thesis by (cases d) auto
qed

text \<open>
  Claim C2 (the checkpoint to persist): in every case the result of the diff carries the
  identity of the first entry of the fetched feed, together with the number of entries
  observed.

  The number of entries is there in every result (\<open>getNewItems_totalItemsCount\<close>). The
  identity of the first entry is not: \<open>getNewItems\<close> returns the new items and the count
  only. The theorem evaluates a first observation of two feeds whose only entries, with
  the identities \<open>a\<close> and \<open>b\<close>, are older than the start of the process: the two results
  are the same value, so the identity of the newest entry cannot be read from them.
\<close>

theorem getNewItems_result_without_newest_id:
  "getNewItems (fetchedItems [mkItem ''a'' (Some (Date 1000))])
      \<lparr>BOT_STARTUP_TIME = Some (Date 5000), now = 9000\<rparr> exampleUrl None False
     = Inr \<lparr>items = [], totalItemsCount = 1\<rparr>
   \<and> getNewItems (fetchedItems [mkItem ''b'' (Some (Date 1000))])
      \<lparr>BOT_STARTUP_TIME = Some (Date 5000), now = 9000\<rparr> exampleUrl None False
     = Inr \<lparr>items = [], totalItemsCount = 1\<rparr>"
  by (simp add: getNewItems_def fetchedItems_def succeeded_def mkItem_def orElse_def
      botStartupTime_def)

text \<open>
  Claim C5 (checkpoint found): when the feed was fetched and the checkpoint, a non-empty
  string, is found at position \<open>k > 0\<close> of the entries (the first position that carries
  it, as \<open>findIndex\<close> searches), the diff returns the entries at the positions before
  \<open>k\<close>, in the order of the feed, and nothing else.
\<close>

theorem getNewItems_checkpoint_found:
  assumes "success result" and "feed result = Some f"
    and "lastItemId = Some lastId" and "lastId \<noteq> []"
    and "k < length (feed_items f)" and "item_id (feed_items f ! k) = lastId"
    and "\<forall>j<k. item_id (feed_items f ! j) \<noteq> lastId"
    and "0 < k"
  shows "getNewItems result env url lastItemId forceProcessAll
           = Inr \<lparr>items = take k (feed_items f), totalItemsCount = length (feed_items f)\<rparr>"
proof -
  have "findIndex (\<lambda>item. item_id item = lastId) (feed_items f) = Some k"
    using assms by (simp add: findIndex_Some_iff)
  with assms show ?thesis
    by (simp add: getNewItems_def Let_def orElse_def split: list.splits)
qed

theorem getNewItems_checkpoint_found_witness:
  "getNewItems (fetchedItems [mkItem ''a'' None, mkItem ''b'' None, mkItem ''c'' None])
      \<lparr>BOT_STARTUP_TIME = None, now = 0\<rparr> exampleUrl (Some ''b'') False
   = Inr \<lparr>items = [mkItem ''a'' None], totalItemsCount = 3\<rparr>"
  using getNewItems_checkpoint_found
    [of "fetchedItems [mkItem ''a'' None, mkItem ''b'' None, mkItem ''c'' None]"
        "\<lparr>feed_title = None, feed_description = None, feed_link = None,
          feed_items = [mkItem ''a'' None, mkItem ''b'' None, mkItem ''c'' None],
          feedType = None, detectedFeatures = None\<rparr>"
        "Some ''b''" "''b''" 1 "\<lparr>BOT_STARTUP_TIME = None, now = 0\<rparr>" exampleUrl False]
  by (simp add: fetchedItems_def succeeded_def mkItem_def)

text \<open>
  Claim C6 (checkpoint not found): when the feed was fetched and the checkpoint occurs
  nowhere in it, the diff returns at most 5 entries, the most recent ones, for any URL.

  This fails for a URL that contains \<open>reddit.com\<close>: there the code returns every entry
  published within the last hour, however many there are. Six such entries are all
  returned.
\<close>

theorem getNewItems_reddit_burst:
  "getNewItems (fetchedItems sixRecentItems) \<lparr>BOT_STARTUP_TIME = None, now = 7200000\<rparr>
      ''https://www.reddit.com/r/news/.rss'' (Some ''gone'') False
     = Inr \<lparr>items = sixRecentItems, totalItemsCount = 6\<rparr>
   \<and> \<not> length sixRecentItems \<le> 5"
  by (simp add: getNewItems_def fetchedItems_def succeeded_def mkItem_def orElse_def
      sixRecentItems_def)

text \<open>
  Claim C6 as amended: when the feed was fetched and the checkpoint, a non-empty string,
  occurs nowhere in it, then for a URL that does not contain \<open>reddit.com\<close> the diff
  returns the first 5 entries of the feed (all of them when there are fewer); for a URL
  that contains \<open>reddit.com\<close> it returns all the entries published less than one hour
  before the call when there is one, and the first 3 entries of the feed otherwise.
\<close>

theorem getNewItems_checkpoint_not_found:
  assumes "success result" and "feed result = Some f"
    and "lastItemId = Some lastId" and "lastId \<noteq> []"
    and "\<forall>item \<in> set (feed_items f). item_id item \<noteq> lastId"
  shows "getNewItems result env url lastItemId forceProcessAll =
     Inr \<lparr>items =
       (if includesStr url ''reddit.com''
        then (if \<exists>item \<in> set (feed_items f). \<exists>d. pubDate item = Some d
                    \<and> date_gt d (Date (now env - 3600000))
              then filter (\<lambda>item. \<exists>d. pubDate item = Some d
                    \<and> date_gt d (Date (now env - 3600000))) (feed_items f)
              else take 3 (feed_items f))
        else take 5 (feed_items f)),
       totalItemsCount = length (feed_items f)\<rparr>"
proof -
  let ?recent = "\<lambda>item. case pubDate item of None \<Rightarrow> False
                    | Some d \<Rightarrow> date_gt d (Date (now env - 3600000))"
  let ?its = "feed_items f"
  have none: "findIndex (\<lambda>item. item_id item = lastId) ?its = None"
    using assms(5) by (simp add: findIndex_None_iff)
  have same: "?recent = (\<lambda>item. \<exists>d. pubDate item = Some d
                  \<and> date_gt d (Date (now env - 3600000)))"
    by (auto simp: fun_eq_iff split: option.splits)
  have shape: "getNewItems result env url lastItemId forceProcessAll =
     Inr \<lparr>items =
       (if includesStr url ''reddit.com''
        then (if filter ?recent ?its \<noteq> [] then filter ?recent ?its else take 3 ?its)
        else take 5 ?its),
       totalItemsCount = length ?its\<rparr>"
    using assms(1-4) none by (simp add: getNewItems_def Let_def orElse_def take_min_length)
  have "filter ?recent ?its \<noteq> [] \<longleftrightarrow> (\<exists>item \<in> set ?its. ?recent item)"
    by (simp add: filter_empty_conv)
  with shape show ?thesis
    unfolding same by simp
qed

theorem getNewItems_checkpoint_not_found_witness:
  "getNewItems (fetchedItems sixRecentItems) \<lparr>BOT_STARTUP_TIME = None, now = 7200000\<rparr>
      exampleUrl (Some ''gone'') False
   = Inr \<lparr>items =
       [mkItem ''p1'' (Some (Date 7000000)), mkItem ''p2'' (Some (Date 6900000)),
        mkItem ''p3'' (Some (Date 6800000)), mkItem ''p4'' (Some (Date 6700000)),
        mkItem ''p5'' (Some (Date 6600000))],
       totalItemsCount = 6\<rparr>"
  using getNewItems_checkpoint_not_found
    [of "fetchedItems sixRecentItems"
        "\<lparr>feed_title = None, feed_description = None, feed_link = None,
          feed_items = sixRecentItems, feedType = None, detectedFeatures = None\<rparr>"
        "Some ''gone''" "''gone''" "\<lparr>BOT_STARTUP_TIME = None, now = 7200000\<rparr>" exampleUrl False]
    exampleUrl_not_reddit
  by (simp add: fetchedItems_def succeeded_def) (simp add: sixRecentItems_def mkItem_def)

text \<open>
  Claim C7 (first observation): when the feed was fetched, no checkpoint is given and
  catch-up is not forced, the diff returns exactly the entries whose publish time is at
  or after the reference time of the start of the process, and no entry without a
  publish time.

  The code does not always return a list, and its reference time is not always one of
  the start of the process. When \<open>BOT_STARTUP_TIME\<close> is set to a string that is no date,
  the log line calls \<open>toISOString\<close> on an invalid date and the call ends with a
  \<open>RangeError\<close>. When \<open>BOT_STARTUP_TIME\<close> is not set, the reference time is the time of
  the call: an entry published at 7200000 is returned by a call made at 7000000 and is
  not returned by a call made at 9000000.
\<close>

theorem getNewItems_reference_time:
  "getNewItems (fetchedItems [mkItem ''new'' (Some (Date 7200000))])
      \<lparr>BOT_STARTUP_TIME = Some InvalidDate, now = 9000000\<rparr> exampleUrl None False
     = Inl (RangeError ''Invalid time value'')
   \<and> getNewItems (fetchedItems [mkItem ''new'' (Some (Date 7200000))])
      \<lparr>BOT_STARTUP_TIME = None, now = 7000000\<rparr> exampleUrl None False
     = Inr \<lparr>items = [mkItem ''new'' (Some (Date 7200000))], totalItemsCount = 1\<rparr>
   \<and> getNewItems (fetchedItems [mkItem ''new'' (Some (Date 7200000))])
      \<lparr>BOT_STARTUP_TIME = None, now = 9000000\<rparr> exampleUrl None False
     = Inr \<lparr>items = [], totalItemsCount = 1\<rparr>"
  by (simp add: getNewItems_def fetchedItems_def succeeded_def mkItem_def orElse_def
      botStartupTime_def)

text \<open>
  Claim C7 as amended: when the feed was fetched, no checkpoint is given, catch-up is not
  forced, and \<open>BOT_STARTUP_TIME\<close> is either set to a valid date or not set, the diff
  returns a result whose items are exactly the entries of the feed, in its order, that
  have a valid publish time at or after the reference time, where the reference time is
  the date in \<open>BOT_STARTUP_TIME\<close> when the variable is set and the time of the call when
  it is not; no entry without a publish time is returned, and the count is that of all
  the entries.
\<close>

theorem getNewItems_first_observation:
  assumes "success result" and "feed result = Some f"
    and "lastItemId = None \<or> lastItemId = Some []"
    and "\<not> forceProcessAll"
    and "BOT_STARTUP_TIME env = Some (Date reference)
         \<or> (BOT_STARTUP_TIME env = None \<and> now env = reference)"
  shows "getNewItems result env url lastItemId forceProcessAll
           = Inr \<lparr>items = filter (\<lambda>item. \<exists>t. pubDate item = Some (Date t) \<and> reference \<le> t)
                             (feed_items f),
                  totalItemsCount = length (feed_items f)\<rparr>
         \<and> (\<forall>item \<in> set (filter (\<lambda>item. \<exists>t. pubDate item = Some (Date t) \<and> reference \<le> t)
                             (feed_items f)).
               pubDate item \<noteq> None)"
proof -
  have ref: "botStartupTime env = Date reference"
    using assms(5) by (rule botStartupTime_reference)
  have same: "(\<lambda>item. case pubDate item of None \<Rightarrow> False
                 | Some d \<Rightarrow> date_ge d (botStartupTime env))
              = (\<lambda>item. \<exists>t. pubDate item = Some (Date t) \<and> reference \<le> t)"
    unfolding ref by (rule ext) (rule at_or_after_reference)
  have "orElse lastItemId [] = []"
    using assms(3) by (auto simp: orElse_def)
  then have "getNewItems result env url lastItemId forceProcessAll
           = Inr \<lparr>items = filter (\<lambda>item. \<exists>t. pubDate item = Some (Date t) \<and> reference \<le> t)
                             (feed_items f),
                  totalItemsCount = length (feed_items f)\<rparr>"
    using assms(1,2,4) by (simp add: getNewItems_def Let_def ref) (simp only: same)
  then show ?thesis by auto
qed

theorem getNewItems_first_observation_witness:
  "getNewItems
      (fetchedItems [mkItem ''new'' (Some (Date 7200000)), mkItem ''undated'' None,
         mkItem ''old'' (Some (Date 0))])
      \<lparr>BOT_STARTUP_TIME = Some (Date 3600000), now = 9000000\<rparr> exampleUrl None False
   = Inr \<lparr>items = [mkItem ''new'' (Some (Date 7200000))], totalItemsCount = 3\<rparr>"
  using getNewItems_first_observation
    [of "fetchedItems [mkItem ''new'' (Some (Date 7200000)), mkItem ''undated'' None,
           mkItem ''old'' (Some (Date 0))]"
        "\<lparr>feed_title = None, feed_description = None, feed_link = None,
          feed_items = [mkItem ''new'' (Some (Date 7200000)), mkItem ''undated'' None,
             mkItem ''old'' (Some (Date 0))],
          feedType = None, detectedFeatures = None\<rparr>"
        None False "\<lparr>BOT_STARTUP_TIME = Some (Date 3600000), now = 9000000\<rparr>" 3600000 exampleUrl]
  by (simp add: fetchedItems_def succeeded_def) (simp add: mkItem_def)

section \<open>The retry loop\<close>

lemma retryLoop_generic:
  assumes "attempt \<le> maxRetries"
    and "attemptFetch P (attempt_env env attempt) url = (Inl msg, evs)"
    and "\<not> isRateLimitError msg" and "\<not> isNonRetryableError msg"
  shows "retryLoop P env url attempt lastError =
           andThen (evs @ (if attempt < maxRetries then [Sleep (backoffDelay attempt)] else []))
             (retryLoop P env url (attempt + 1) (Some msg))"
  using assms by (subst retryLoop.simps) simp

lemma retryLoop_past_bound:
  "maxRetries < attempt \<Longrightarrow> retryLoop P env url attempt lastError = (Ended lastError, [])"
  by (subst retryLoop.simps) simp

lemma backoffDelay_mono: "m \<le> n \<Longrightarrow> backoffDelay m \<le> backoffDelay n"
  unfolding backoffDelay_def
  by (intro min.mono mult_le_mono power_increasing) auto

lemma attemptFetch_html:
  assumes "receivesHtml a"
  shows "attemptFetch P a url
           = (Inl htmlPageMessage, requestEvents a url @ [RecordSuccess (extractDomain P url)])"
  using assms
  by (auto simp: receivesHtml_def attemptFetch_def Let_def response_ok_def
      split: sum.splits option.splits)

lemma attemptFetch_not_modified:
  assumes "canExecute a" and "currentCachedEntry a = None"
    and "fetched a = Inr response" and "status response = 304"
  shows "attemptFetch P a url =
           (Inl (''HTTP 304: '' @ statusText response),
            [WaitIfNeeded url, Fetch url None None, RecordFailure (extractDomain P url)])"
  using assms
  by (simp add: attemptFetch_def Let_def response_ok_def requestEvents_def showNat_304)

lemma attemptFetch_Inr_success:
  "attemptFetch P a url = (Inr r, evs) \<Longrightarrow> success r"
  by (auto simp: attemptFetch_def Let_def succeeded_def split: if_splits sum.splits option.splits)

lemma retryLoop_Returned_success:
  "fst (retryLoop P env url attempt lastError) = Returned r \<Longrightarrow> success r"
proof (induction P env url attempt lastError rule: retryLoop.induct)
  case (1 P env url attempt lastError)
  show ?case
  proof (cases "attempt \<le> maxRetries")
    case False
    with "1.prems" show ?thesis by (simp add: retryLoop_past_bound)
  next
    case True
    obtain out evs where a: "attemptFetch P (attempt_env env attempt) url = (out, evs)"
      by (cases "attemptFetch P (attempt_env env attempt) url")
    show ?thesis
    proof (cases out)
      case (Inr x)
      with a True "1.prems" attemptFetch_Inr_success show ?thesis
        by (subst (asm) retryLoop.simps) auto
    next
      case (Inl msg)
      with a True "1.prems" "1.IH" show ?thesis
        by (subst (asm) retryLoop.simps) (auto simp: andThen_fst split: if_splits)
    qed
  qed
qed

lemma retryLoop_Ended:
  "fst (retryLoop P env url attempt lastError) = Ended e \<Longrightarrow>
     (maxRetries < attempt \<and> e = lastError)
     \<or> (\<exists>k msg. attempt \<le> k \<and> k \<le> maxRetries
           \<and> (\<forall>j. attempt \<le> j \<and> j < k \<longrightarrow> retriedAttempt P (attempt_env env j) url)
           \<and> fst (attemptFetch P (attempt_env env k) url) = Inl msg \<and> e = Some msg
           \<and> (k = maxRetries \<or> (isNonRetryableError msg \<and> \<not> isRateLimitError msg)))"
proof (induction P env url attempt lastError rule: retryLoop.induct)
  case (1 P env url attempt lastError)
  show ?case
  proof (cases "attempt \<le> maxRetries")
    case False
    with "1.prems" show ?thesis by (simp add: retryLoop_past_bound)
  next
    case True
    obtain out evs where a: "attemptFetch P (attempt_env env attempt) url = (out, evs)"
      by (cases "attemptFetch P (attempt_env env attempt) url")
    show ?thesis
    proof (cases out)
      case (Inr x)
      with a True "1.prems" show ?thesis
        by (subst (asm) retryLoop.simps) auto
    next
      case (Inl msg)
      show ?thesis
      proof (cases "\<not> isRateLimitError msg \<and> isNonRetryableError msg")
        case True
        with a Inl \<open>attempt \<le> maxRetries\<close> "1.prems" have "e = Some msg"
          by (subst (asm) retryLoop.simps) auto
        with a Inl True \<open>attempt \<le> maxRetries\<close> show ?thesis
          by (intro disjI2 exI [of _ attempt] exI [of _ msg]) auto
      next
        case False
        with a Inl \<open>attempt \<le> maxRetries\<close> "1.prems"
        have next_call: "fst (retryLoop P env url (attempt + 1) (Some msg)) = Ended e"
          by (subst (asm) retryLoop.simps) (auto simp: andThen_fst split: if_splits)
        from a Inl False have retried: "retriedAttempt P (attempt_env env attempt) url"
          by (auto simp: retriedAttempt_def)
        have "(maxRetries < attempt + 1 \<and> e = Some msg)
          \<or> (\<exists>k m. attempt + 1 \<le> k \<and> k \<le> maxRetries
                \<and> (\<forall>j. attempt + 1 \<le> j \<and> j < k \<longrightarrow> retriedAttempt P (attempt_env env j) url)
                \<and> fst (attemptFetch P (attempt_env env k) url) = Inl m \<and> e = Some m
                \<and> (k = maxRetries \<or> (isNonRetryableError m \<and> \<not> isRateLimitError m)))"
        proof (cases "isRateLimitError msg")
          case True
          from "1.IH"(1) [OF \<open>attempt \<le> maxRetries\<close> a [symmetric] Inl True next_call]
          show ?thesis .
        next
          case rl: False
          with False have nr: "\<not> isNonRetryableError msg" by simp
          from "1.IH"(2) [OF \<open>attempt \<le> maxRetries\<close> a [symmetric] Inl rl nr next_call]
          show ?thesis .
        qed
        then show ?thesis
        proof
          assume "maxRetries < attempt + 1 \<and> e = Some msg"
          with \<open>attempt \<le> maxRetries\<close> have "attempt = maxRetries" "e = Some msg" by auto
          with a Inl show ?thesis
            by (intro disjI2 exI [of _ attempt] exI [of _ msg]) auto
        next
          assume "\<exists>k m. attempt + 1 \<le> k \<and> k \<le> maxRetries
                \<and> (\<forall>j. attempt + 1 \<le> j \<and> j < k \<longrightarrow> retriedAttempt P (attempt_env env j) url)
                \<and> fst (attemptFetch P (attempt_env env k) url) = Inl m \<and> e = Some m
                \<and> (k = maxRetries \<or> (isNonRetryableError m \<and> \<not> isRateLimitError m))"
          then obtain k m where km: "attempt + 1 \<le> k" "k \<le> maxRetries"
            "\<forall>j. attempt + 1 \<le> j \<and> j < k \<longrightarrow> retriedAttempt P (attempt_env env j) url"
            "fst (attemptFetch P (attempt_env env k) url) = Inl m" "e = Some m"
            "k = maxRetries \<or> (isNonRetryableError m \<and> \<not> isRateLimitError m)"
            by blast
          have "retriedAttempt P (attempt_env env j) url" if "attempt \<le> j" "j < k" for j
          proof (cases "j = attempt")
            case True
            with retried show ?thesis by simp
          next
            case False
            with that km(3) show ?thesis by simp
          qed
          with km show ?thesis
            by (intro disjI2 exI [of _ k] exI [of _ m]) auto
        qed
      qed
    qed
  qed
qed

lemma server_error_trace:
  "fetchFeedFromUrl examplePlatform (always (responding 500 ''Internal Server Error'' []))
     exampleUrl =
   (Inr (failed ''HTTP 500: Internal Server Error''),
    [WaitIfNeeded exampleUrl, Fetch exampleUrl None None, RecordFailure ''example.com'',
     Sleep 1000,
     WaitIfNeeded exampleUrl, Fetch exampleUrl None None, RecordFailure ''example.com'',
     Sleep 2000,
     WaitIfNeeded exampleUrl, Fetch exampleUrl None None, RecordFailure ''example.com'',
     RecordFailure ''example.com''])"
  by code_simp

lemma not_found_trace:
  "fetchFeedFromUrl examplePlatform (always (responding 404 ''Not Found'' [])) exampleUrl =
   (Inr (failed ''HTTP 404: Not Found''),
    [WaitIfNeeded exampleUrl, Fetch exampleUrl None None, RecordFailure ''example.com'',
     RecordFailure ''example.com''])"
  by code_simp

lemma html_page_received:
  "receivesHtml (responding 200 ''OK'' ''<!DOCTYPE html><html><body>Moved</body></html>'')"
  by code_simp

text \<open>
  Claim C3 (an HTML page is not retried): when the body of the response is an HTML page,
  the retry loop ends after that attempt, no further attempt is made for the URL, and
  the fetch fails with the error of the HTML page.

  The message of that error matches none of the patterns of \<open>isNonRetryableError\<close>, so
  the loop goes on: with a server that answers every request with an HTML page the code
  makes three requests.
\<close>

theorem html_page_requested_three_times:
  "requestsMade exampleUrl
     (snd (fetchFeedFromUrl examplePlatform
        (always (responding 200 ''OK'' ''<!DOCTYPE html><html><body>Moved</body></html>''))
        exampleUrl)) = 3"
  by code_simp

text \<open>
  Claim C3 as amended: receiving an HTML page where a feed was expected is a retryable
  error. When no cache entry answers the call, the URL is not on the block list and each
  of the three attempts receives an HTML page with a successful status, every attempt
  records a success of the circuit breaker, the loop sleeps 1000 ms and 2000 ms between
  the attempts, and after the third attempt the fetch records one failure of the circuit
  breaker and fails with the error of the HTML page.
\<close>

theorem html_page_is_retried:
  assumes "cachedEntry env = None" and "\<not> isProblematicUrl url"
    and "\<forall>n \<in> {1, 2, 3}. receivesHtml (attempt_env env n)"
  shows "fetchFeedFromUrl P env url =
    (Inr (failed htmlPageMessage),
     requestEvents (attempt_env env 1) url @ [RecordSuccess (extractDomain P url), Sleep 1000]
     @ requestEvents (attempt_env env 2) url @ [RecordSuccess (extractDomain P url), Sleep 2000]
     @ requestEvents (attempt_env env 3) url
     @ [RecordSuccess (extractDomain P url), RecordFailure (extractDomain P url)])"
proof -
  let ?d = "extractDomain P url"
  have a: "attemptFetch P (attempt_env env n) url
             = (Inl htmlPageMessage, requestEvents (attempt_env env n) url @ [RecordSuccess ?d])"
    if "n \<in> {1, 2, 3}" for n
    using that assms(3) attemptFetch_html by blast
  have l4: "retryLoop P env url 4 (Some htmlPageMessage) = (Ended (Some htmlPageMessage), [])"
    by (simp add: retryLoop_past_bound maxRetries_def)
  have l3: "retryLoop P env url 3 (Some htmlPageMessage)
      = (Ended (Some htmlPageMessage), requestEvents (attempt_env env 3) url @ [RecordSuccess ?d])"
    using retryLoop_generic [OF _ a [of 3] html_message_is_generic, of "Some htmlPageMessage"] l4
    by (simp add: maxRetries_def)
  have l2: "retryLoop P env url 2 (Some htmlPageMessage)
      = (Ended (Some htmlPageMessage),
         requestEvents (attempt_env env 2) url @ [RecordSuccess ?d, Sleep 2000]
         @ requestEvents (attempt_env env 3) url @ [RecordSuccess ?d])"
    using retryLoop_generic [OF _ a [of 2] html_message_is_generic, of "Some htmlPageMessage"] l3
    by (simp add: maxRetries_def backoffDelay_def baseDelay_def maxDelay_def)
  have l1: "retryLoop P env url 1 None
      = (Ended (Some htmlPageMessage),
         requestEvents (attempt_env env 1) url @ [RecordSuccess ?d, Sleep 1000]
         @ requestEvents (attempt_env env 2) url @ [RecordSuccess ?d, Sleep 2000]
         @ requestEvents (attempt_env env 3) url @ [RecordSuccess ?d])"
    using retryLoop_generic [OF _ a [of 1] html_message_is_generic, of None] l2
    by (simp add: maxRetries_def backoffDelay_def baseDelay_def maxDelay_def
        del: One_nat_def)
  have "htmlPageMessage \<noteq> []"
    by (simp add: htmlPageMessage_def)
  with l1 assms(1,2) html_message_is_generic(2) show ?thesis
    by (simp add: fetchFeedFromUrl_def)
qed

theorem html_page_is_retried_witness:
  "fetchFeedFromUrl examplePlatform
     (always (responding 200 ''OK'' ''<!DOCTYPE html><html><body>Moved</body></html>''))
     exampleUrl =
   (Inr (failed htmlPageMessage),
    [WaitIfNeeded exampleUrl, Fetch exampleUrl None None, RecordSuccess ''example.com'',
     Sleep 1000,
     WaitIfNeeded exampleUrl, Fetch exampleUrl None None, RecordSuccess ''example.com'',
     Sleep 2000,
     WaitIfNeeded exampleUrl, Fetch exampleUrl None None, RecordSuccess ''example.com'',
     RecordFailure ''example.com''])"
  using html_page_is_retried
    [of "always (responding 200 ''OK'' ''<!DOCTYPE html><html><body>Moved</body></html>'')"
        exampleUrl examplePlatform]
    exampleUrl_not_problematic html_page_received
  by (simp add: always_def)
    (simp add: requestEvents_def responding_def examplePlatform_def)

text \<open>
  Claim C4 (one recorded failure for each failing call): a failing fetch of one URL
  records exactly one failure of the circuit breaker for the domain, at once for an error
  that is not retried, or after the last attempt, and never one for each attempt.

  The comments of the code say so where it handles the error and where the loop has
  ended, but the check of the response status records a failure of its own inside every
  attempt. A server that answers 500 three times leaves four recorded failures, and one
  that answers 404, which is not retried, leaves two.
\<close>

theorem recordFailure_once_per_status_attempt:
  "recordedFailures ''example.com''
     (snd (fetchFeedFromUrl examplePlatform
        (always (responding 500 ''Internal Server Error'' [])) exampleUrl)) = 4
   \<and> recordedFailures ''example.com''
     (snd (fetchFeedFromUrl examplePlatform
        (always (responding 404 ''Not Found'' [])) exampleUrl)) = 2"
  by (simp add: server_error_trace not_found_trace recordedFailures_def)

text \<open>
  Claim C8 (backoff): when attempt \<open>n\<close>, for \<open>n\<close> equal to 1 or 2, fails with an error
  that is neither a rate-limit error nor an error that is not retried, the loop sleeps
  \<open>min (1000 * 2 ^ (n - 1)) 30000\<close> milliseconds and then makes attempt \<open>n + 1\<close>; this
  delay is \<open>backoffDelay n\<close>, which does not decrease with \<open>n\<close> and never exceeds 30000.
\<close>

theorem backoff_before_next_attempt:
  assumes "n = 1 \<or> n = 2"
    and "attemptFetch P (attempt_env env n) url = (Inl msg, evs)"
    and "\<not> isRateLimitError msg" and "\<not> isNonRetryableError msg"
  shows "retryLoop P env url n lastError =
           andThen (evs @ [Sleep (min (1000 * 2 ^ (n - 1)) 30000)])
             (retryLoop P env url (n + 1) (Some msg))
         \<and> backoffDelay n = min (1000 * 2 ^ (n - 1)) 30000
         \<and> (\<forall>m. m \<le> n \<longrightarrow> backoffDelay m \<le> backoffDelay n)
         \<and> backoffDelay n \<le> 30000"
proof -
  have bound: "n \<le> maxRetries" "n < maxRetries"
    using assms(1) by (auto simp: maxRetries_def)
  have delay: "backoffDelay n = min (1000 * 2 ^ (n - 1)) 30000"
    by (simp add: backoffDelay_def baseDelay_def maxDelay_def)
  have "retryLoop P env url n lastError =
           andThen (evs @ [Sleep (backoffDelay n)]) (retryLoop P env url (n + 1) (Some msg))"
    using retryLoop_generic [OF bound(1) assms(2-4)] bound(2) by simp
  then have loop: "retryLoop P env url n lastError =
           andThen (evs @ [Sleep (min (1000 * 2 ^ (n - 1)) 30000)])
             (retryLoop P env url (n + 1) (Some msg))"
    by (simp only: delay)
  have mono: "\<forall>m. m \<le> n \<longrightarrow> backoffDelay m \<le> backoffDelay n"
    using backoffDelay_mono by blast
  have cap: "backoffDelay n \<le> 30000"
    by (simp add: backoffDelay_def maxDelay_def)
  from loop delay mono cap show ?thesis
    by blast
qed

theorem backoff_before_next_attempt_witness:
  "retryLoop examplePlatform (always (rejecting ''fetch failed'')) exampleUrl 1 None =
     andThen ([WaitIfNeeded exampleUrl, Fetch exampleUrl None None] @ [Sleep 1000])
       (retryLoop examplePlatform (always (rejecting ''fetch failed'')) exampleUrl 2
          (Some ''fetch failed''))
   \<and> backoffDelay 1 = 1000 \<and> backoffDelay 1 \<le> 30000"
  using backoff_before_next_attempt
    [of 1 examplePlatform "always (rejecting ''fetch failed'')" exampleUrl "''fetch failed''"
        "[WaitIfNeeded exampleUrl, Fetch exampleUrl None None]" None]
    classify_fetch_failed
  by (simp add: attemptFetch_def always_def rejecting_def requestEvents_def del: One_nat_def)

text \<open>
  Claim C10 (304 without a cache entry): when the circuit is closed, the response has the
  status 304 and no cache entry exists for the URL at that attempt, the attempt does not
  return the cached feed: it records a failure of the circuit breaker for the domain and
  throws the error \<open>HTTP 304: \<close> followed by the status text. The loop catches this
  error and classifies it as it does any other: a rate-limit error waits the rate-limit
  delay, an error that is not retried records a failure and ends the loop, and any other
  error (the case of the status text \<open>Not Modified\<close>) waits the backoff delay; the
  waits are made while an attempt is left.
\<close>

theorem not_modified_without_cache_entry:
  assumes "canExecute a" and "currentCachedEntry a = None"
    and "fetched a = Inr response" and "status response = 304"
  shows "attemptFetch P a url =
           (Inl (''HTTP 304: '' @ statusText response),
            [WaitIfNeeded url, Fetch url None None, RecordFailure (extractDomain P url)])
         \<and> (attempt \<le> maxRetries \<and> attempt_env env attempt = a \<longrightarrow>
              retryLoop P env url attempt lastError =
                (let msg = ''HTTP 304: '' @ statusText response;
                     evs = [WaitIfNeeded url, Fetch url None None,
                            RecordFailure (extractDomain P url)]
                 in if isRateLimitError msg then
                      andThen
                        (evs @ (if attempt < maxRetries
                                then [Sleep (getRateLimitDelay P url attempt)] else []))
                        (retryLoop P env url (attempt + 1) (Some msg))
                    else if isNonRetryableError msg then
                      (Ended (Some msg), evs @ [RecordFailure (extractDomain P url)])
                    else
                      andThen
                        (evs @ (if attempt < maxRetries then [Sleep (backoffDelay attempt)]
                                else []))
                        (retryLoop P env url (attempt + 1) (Some msg))))"
proof -
  have thrown: "attemptFetch P a url =
           (Inl (''HTTP 304: '' @ statusText response),
            [WaitIfNeeded url, Fetch url None None, RecordFailure (extractDomain P url)])"
    using assms by (rule attemptFetch_not_modified)
  have "retryLoop P env url attempt lastError =
          (let msg = ''HTTP 304: '' @ statusText response;
               evs = [WaitIfNeeded url, Fetch url None None,
                      RecordFailure (extractDomain P url)]
           in if isRateLimitError msg then
                andThen
                  (evs @ (if attempt < maxRetries
                          then [Sleep (getRateLimitDelay P url attempt)] else []))
                  (retryLoop P env url (attempt + 1) (Some msg))
              else if isNonRetryableError msg then
                (Ended (Some msg), evs @ [RecordFailure (extractDomain P url)])
              else
                andThen
                  (evs @ (if attempt < maxRetries then [Sleep (backoffDelay attempt)]
                          else []))
                  (retryLoop P env url (attempt + 1) (Some msg)))"
    if "attempt \<le> maxRetries" and "attempt_env env attempt = a"
    using that thrown by (subst retryLoop.simps) (simp add: Let_def)
  with thrown show ?thesis
    by blast
qed

theorem not_modified_without_cache_entry_witness:
  "attemptFetch examplePlatform (responding 304 ''Not Modified'' []) exampleUrl =
     (Inl ''HTTP 304: Not Modified'',
      [WaitIfNeeded exampleUrl, Fetch exampleUrl None None, RecordFailure ''example.com''])
   \<and> retryLoop examplePlatform (always (responding 304 ''Not Modified'' [])) exampleUrl 1 None =
       andThen
         [WaitIfNeeded exampleUrl, Fetch exampleUrl None None, RecordFailure ''example.com'',
          Sleep 1000]
         (retryLoop examplePlatform (always (responding 304 ''Not Modified'' [])) exampleUrl 2
            (Some ''HTTP 304: Not Modified''))"
  using not_modified_without_cache_entry
    [of "responding 304 ''Not Modified'' []"
        "\<lparr>status = 304, statusText = ''Not Modified'', header_content_type = None,
          header_etag = None, header_last_modified = None, response_text = Inr []\<rparr>"
        examplePlatform exampleUrl 1 "always (responding 304 ''Not Modified'' [])" None]
    classify_not_modified
  by (simp add: responding_def always_def examplePlatform_def maxRetries_def backoffDelay_def
      baseDelay_def maxDelay_def del: One_nat_def)

section \<open>The fetch over the candidate URLs\<close>

lemma fetchFeedFromUrl_returns: "\<exists>r. fst (fetchFeedFromUrl P env url) = Inr r"
proof (cases "cachedEntry env")
  case (Some e)
  then show ?thesis by (simp add: fetchFeedFromUrl_def)
next
  case None
  show ?thesis
  proof (cases "isProblematicUrl url")
    case True
    with None show ?thesis by (simp add: fetchFeedFromUrl_def)
  next
    case False
    obtain lr evs where l: "retryLoop P env url 1 None = (lr, evs)"
      by (cases "retryLoop P env url 1 None")
    show ?thesis
    proof (cases lr)
      case (Returned r)
      with None False l show ?thesis by (simp add: fetchFeedFromUrl_def)
    next
      case (Ended e)
      with l have "fst (retryLoop P env url 1 None) = Ended e" by simp
      from retryLoop_Ended [OF this] obtain msg where "e = Some msg"
        by (auto simp: maxRetries_def)
      with None False l Ended show ?thesis by (simp add: fetchFeedFromUrl_def Let_def)
    qed
  qed
qed

lemma fetchFeedFromUrl_failure:
  assumes "fst (fetchFeedFromUrl P env url) = Inr r" and "\<not> success r"
  shows "\<exists>e. r = failed e \<and>
     ((isProblematicUrl url \<and> e = ''URL is known to be problematic and has been skipped'')
      \<or> (\<not> isProblematicUrl url \<and>
          (\<exists>k msg. 1 \<le> k \<and> k \<le> maxRetries
             \<and> (\<forall>j. 1 \<le> j \<and> j < k \<longrightarrow> retriedAttempt P (attempt_env env j) url)
             \<and> fst (attemptFetch P (attempt_env env k) url) = Inl msg
             \<and> (k = maxRetries \<or> (isNonRetryableError msg \<and> \<not> isRateLimitError msg))
             \<and> e = (if msg = [] then ''Unknown error occurred'' else msg))))"
proof (cases "cachedEntry env")
  case (Some e)
  with assms have False by (auto simp: fetchFeedFromUrl_def succeeded_def)
  then show ?thesis ..
next
  case None
  show ?thesis
  proof (cases "isProblematicUrl url")
    case True
    with None assms show ?thesis by (auto simp: fetchFeedFromUrl_def)
  next
    case False
    obtain lr evs where l: "retryLoop P env url 1 None = (lr, evs)"
      by (cases "retryLoop P env url 1 None")
    show ?thesis
    proof (cases lr)
      case (Returned x)
      with l have "fst (retryLoop P env url 1 None) = Returned x" by simp
      then have "success x" by (rule retryLoop_Returned_success)
      with None False l Returned assms show ?thesis by (simp add: fetchFeedFromUrl_def)
    next
      case (Ended e)
      with l have "fst (retryLoop P env url 1 None) = Ended e" by simp
      from retryLoop_Ended [OF this] obtain k msg where km: "1 \<le> k" "k \<le> maxRetries"
        "\<forall>j. 1 \<le> j \<and> j < k \<longrightarrow> retriedAttempt P (attempt_env env j) url"
        "fst (attemptFetch P (attempt_env env k) url) = Inl msg" "e = Some msg"
        "k = maxRetries \<or> (isNonRetryableError msg \<and> \<not> isRateLimitError msg)"
        by (auto simp: maxRetries_def)
      from None False l Ended km(5) assms(1)
      have "r = failed (if msg = [] then ''Unknown error occurred'' else msg)"
        by (simp add: fetchFeedFromUrl_def Let_def)
      with False km show ?thesis by blast
    qed
  qed
qed

lemma tryUrls_all_fail:
  assumes "\<forall>i < length urls. \<exists>r. fst (fetchFeedFromUrl P (envs (k + i)) (urls ! i)) = Inr r
              \<and> \<not> success r"
  shows "fst (tryUrls P envs k urls) = None"
  using assms
proof (induction urls arbitrary: k)
  case Nil
  then show ?case by simp
next
  case (Cons u us)
  from Cons.prems [rule_format, of 0] obtain r
    where r: "fst (fetchFeedFromUrl P (envs k) u) = Inr r" "\<not> success r"
    by auto
  have "\<forall>i < length us. \<exists>r. fst (fetchFeedFromUrl P (envs (k + 1 + i)) (us ! i)) = Inr r
              \<and> \<not> success r"
    using Cons.prems by (auto dest: spec [of _ "Suc i" for i])
  from Cons.IH [OF this] have "fst (tryUrls P envs (k + 1) us) = None" .
  with r show ?case
    by (cases "fetchFeedFromUrl P (envs k) u") (simp add: andThen_fst)
qed

lemma tryUrls_no_error: "fst (tryUrls P envs k urls) \<noteq> Some (Inl e)"
proof (induction urls arbitrary: k)
  case Nil
  then show ?case by simp
next
  case (Cons u us)
  obtain r where "fst (fetchFeedFromUrl P (envs k) u) = Inr r"
    using fetchFeedFromUrl_returns by blast
  with Cons.IH [of "k + 1"] show ?case
    by (cases "fetchFeedFromUrl P (envs k) u") (auto simp: andThen_fst)
qed

lemma fetchFeed_returns: "\<exists>r. fst (fetchFeed P envs url) = Inr r"
proof -
  let ?urls = "url # getAlternativeUrls P url"
  obtain out evs where t: "tryUrls P envs 0 ?urls = (out, evs)"
    by (cases "tryUrls P envs 0 ?urls")
  show ?thesis
  proof (cases out)
    case None
    with t fetchFeedFromUrl_returns [of P "envs (length ?urls)" url] show ?thesis
      by (auto simp: fetchFeed_def Let_def andThen_fst simp del: tryUrls.simps)
  next
    case (Some x)
    with t tryUrls_no_error [of P envs 0 ?urls] have "\<exists>r. x = Inr r"
      by (cases x) auto
    with t Some show ?thesis
      by (auto simp: fetchFeed_def Let_def simp del: tryUrls.simps)
  qed
qed

lemma empty_message_trace:
  "fetchFeedFromUrl examplePlatform (always (rejecting [])) exampleUrl =
   (Inr (failed ''Unknown error occurred''),
    [WaitIfNeeded exampleUrl, Fetch exampleUrl None None, Sleep 1000,
     WaitIfNeeded exampleUrl, Fetch exampleUrl None None, Sleep 2000,
     WaitIfNeeded exampleUrl, Fetch exampleUrl None None, RecordFailure ''example.com''])"
  by code_simp

text \<open>
  Claim C9 (the fetch never raises): \<open>fetchFeed\<close> raises no error; when the original URL
  and every alternate URL fail, it returns \<open>{success: false, error}\<close>, where \<open>error\<close> is
  the message of the last error of the final fetch of the original URL.

  The message is replaced when it is empty: with a \<open>fetch\<close> that rejects with an error
  whose message is the empty string at every attempt, every attempt throws that error and
  the result carries \<open>Unknown error occurred\<close>.
\<close>

theorem fetchFeed_empty_message:
  "fst (attemptFetch examplePlatform (rejecting []) exampleUrl) = Inl []
   \<and> fst (fetchFeed examplePlatform (everyCall (always (rejecting []))) exampleUrl)
       = Inr \<lparr>success = False, feed = None, error = Some ''Unknown error occurred''\<rparr>"
  by (simp add: fetchFeed_def everyCall_def examplePlatform_alternatives empty_message_trace
      failed_def)
    (simp add: attemptFetch_def rejecting_def)

text \<open>
  Claim C9 as amended: \<open>fetchFeed\<close> raises no error (the cache, the circuit breaker and
  the logger being collaborators that raise none): for every URL it returns a structured
  result. When every fetch of one URL that it makes fails, for the original URL, for
  each alternate URL and for the original URL once more at the end, the result is that
  of this final fetch: \<open>{success: false, error}\<close>, where \<open>error\<close> is the fixed message of
  the block list when the URL is on it, and otherwise the message of the error thrown by
  the last attempt of the final fetch, or \<open>Unknown error occurred\<close> when that message is
  empty. The last attempt is attempt \<open>k\<close>, where every attempt before \<open>k\<close> threw an error
  after which the loop goes on, and \<open>k\<close> is the third attempt or its error is one that
  is not retried.
\<close>

theorem fetchFeed_reports_final_error:
  assumes "urlsToTry = url # getAlternativeUrls P url"
  shows "(\<exists>r. fst (fetchFeed P envs url) = Inr r) \<and>
    ((\<forall>i < length urlsToTry.
         \<exists>r. fst (fetchFeedFromUrl P (envs i) (urlsToTry ! i)) = Inr r \<and> \<not> success r)
     \<and> fst (fetchFeedFromUrl P (envs (length urlsToTry)) url) = Inr final \<and> \<not> success final
     \<longrightarrow> fst (fetchFeed P envs url) = Inr final
         \<and> (\<exists>e. final = \<lparr>success = False, feed = None, error = Some e\<rparr> \<and>
              ((isProblematicUrl url
                  \<and> e = ''URL is known to be problematic and has been skipped'')
               \<or> (\<not> isProblematicUrl url \<and>
                   (\<exists>k msg. 1 \<le> k \<and> k \<le> maxRetries
                      \<and> (\<forall>j. 1 \<le> j \<and> j < k \<longrightarrow>
                            retriedAttempt P (attempt_env (envs (length urlsToTry)) j) url)
                      \<and> fst (attemptFetch P (attempt_env (envs (length urlsToTry)) k) url)
                          = Inl msg
                      \<and> (k = maxRetries
                          \<or> (isNonRetryableError msg \<and> \<not> isRateLimitError msg))
                      \<and> e = (if msg = [] then ''Unknown error occurred'' else msg))))))"
proof -
  have "fst (fetchFeed P envs url) = Inr final
         \<and> (\<exists>e. final = \<lparr>success = False, feed = None, error = Some e\<rparr> \<and>
              ((isProblematicUrl url
                  \<and> e = ''URL is known to be problematic and has been skipped'')
               \<or> (\<not> isProblematicUrl url \<and>
                   (\<exists>k msg. 1 \<le> k \<and> k \<le> maxRetries
                      \<and> (\<forall>j. 1 \<le> j \<and> j < k \<longrightarrow>
                            retriedAttempt P (attempt_env (envs (length urlsToTry)) j) url)
                      \<and> fst (attemptFetch P (attempt_env (envs (length urlsToTry)) k) url)
                          = Inl msg
                      \<and> (k = maxRetries
                          \<or> (isNonRetryableError msg \<and> \<not> isRateLimitError msg))
                      \<and> e = (if msg = [] then ''Unknown error occurred'' else msg)))))"
    if all: "\<forall>i < length urlsToTry.
         \<exists>r. fst (fetchFeedFromUrl P (envs i) (urlsToTry ! i)) = Inr r \<and> \<not> success r"
      and fin: "fst (fetchFeedFromUrl P (envs (length urlsToTry)) url) = Inr final"
        "\<not> success final"
  proof -
    have "fst (tryUrls P envs 0 urlsToTry) = None"
      using all by (intro tryUrls_all_fail) simp
    then have "fst (fetchFeed P envs url) = fst (fetchFeedFromUrl P (envs (length urlsToTry)) url)"
      unfolding fetchFeed_def Let_def assms [symmetric]
      by (cases "tryUrls P envs 0 urlsToTry") (simp add: andThen_fst)
    with fin(1) have 1: "fst (fetchFeed P envs url) = Inr final" by simp
    from fetchFeedFromUrl_failure [OF fin] have 2: "\<exists>e. final = failed e \<and>
     ((isProblematicUrl url \<and> e = ''URL is known to be problematic and has been skipped'')
      \<or> (\<not> isProblematicUrl url \<and>
          (\<exists>k msg. 1 \<le> k \<and> k \<le> maxRetries
             \<and> (\<forall>j. 1 \<le> j \<and> j < k \<longrightarrow>
                   retriedAttempt P (attempt_env (envs (length urlsToTry)) j) url)
             \<and> fst (attemptFetch P (attempt_env (envs (length urlsToTry)) k) url) = Inl msg
             \<and> (k = maxRetries \<or> (isNonRetryableError msg \<and> \<not> isRateLimitError msg))
             \<and> e = (if msg = [] then ''Unknown error occurred'' else msg))))" .
    from 1 2 show ?thesis
      unfolding failed_def by blast
  qed
  with fetchFeed_returns [of P envs url] show ?thesis
    by blast
qed

theorem fetchFeed_reports_final_error_witness:
  "fst (fetchFeed examplePlatform
          (everyCall (always (responding 500 ''Internal Server Error'' []))) exampleUrl)
   = Inr \<lparr>success = False, feed = None, error = Some ''HTTP 500: Internal Server Error''\<rparr>"
  using fetchFeed_reports_final_error
    [of "[exampleUrl]" exampleUrl examplePlatform
        "everyCall (always (responding 500 ''Internal Server Error'' []))"
        "failed ''HTTP 500: Internal Server Error''"]
  by (simp add: examplePlatform_alternatives everyCall_def server_error_trace)
    (simp add: failed_def)

end
